theory Spec2Isabelle
  imports Complex_Main
begin

section \<open>Embedding of \<open>ai_music.py\<close>\<close>

text \<open>
  The audio utilities and the melody generators of \<open>ai_music.py\<close>, as HOL functions.
  A Python float is an IEEE double and is modelled by the real number it denotes.
  In \<open>generate_tone\<close> every arithmetic operation whose result reaches \<open>int()\<close>,
  \<open>math.floor\<close>, a comparison or \<open>math.sin\<close> rounds its exact result to the nearest
  double, ties to even (\<open>fl64\<close>); \<open>math.pi\<close> is the double \<open>PI64\<close>, and \<open>math.sin\<close>
  there is the sine of the C library, a parameter \<open>msin\<close> of the model. Overflow,
  subnormal numbers, infinities and NaN are outside the model. The product of a
  sample with the volume, the \<open>float32\<close> store, the instrument envelopes and the
  scaling in \<open>save_wav\<close> decide no branch and are kept in exact real arithmetic.
  Exceptions are values of \<open>py_error\<close>. The \<open>random\<close> module is an explicit source of
  draws passed to each function.
\<close>

datatype py_error = ValueError | IndexError | KeyError

subsection \<open>Python primitives\<close>

text \<open>\<open>int(x)\<close> on a float truncates toward zero.\<close>

definition py_int :: "real \<Rightarrow> int" where
  "py_int x = (if 0 \<le> x then \<lfloor>x\<rfloor> else \<lceil>x\<rceil>)"

text \<open>Rounding to the nearest integer, a tie going to the even one.\<close>

definition round_even :: "real \<Rightarrow> int" where
  "round_even x =
     (let n = \<lfloor>x\<rfloor>; r = x - of_int n in
      if r < 1/2 then n else if 1/2 < r then n + 1 else if even n then n else n + 1)"

text \<open>
  Rounding to a binary floating-point number with a significand of \<open>p\<close> bits and an
  unbounded exponent: \<open>x\<close> with \<open>2^e \<le> |x| < 2^(e+1)\<close> is rounded to a multiple of
  \<open>2^(e - p + 1)\<close>. A double has 53 bits.
\<close>

definition round_to :: "nat \<Rightarrow> real \<Rightarrow> real" where
  "round_to p x =
     (if x = 0 then 0
      else let u = 2 powi (\<lfloor>log 2 \<bar>x\<bar>\<rfloor> - int p + 1)
           in of_int (round_even (x / u)) * u)"

definition fl64 :: "real \<Rightarrow> real" where
  "fl64 x = round_to 53 x"

text \<open>\<open>math.pi\<close>, the double nearest to \<open>pi\<close>.\<close>

definition PI64 :: real where
  "PI64 = 884279719003555 / 281474976710656"

text \<open>
  \<open>random.uniform(a, b)\<close> is \<open>a + (b - a) * random.random()\<close>; \<open>u\<close> is the value
  \<open>random.random()\<close> returned.
\<close>

definition uniform :: "real \<Rightarrow> real \<Rightarrow> real \<Rightarrow> real" where
  "uniform a b u = fl64 (a + fl64 (fl64 (b - a) * u))"

text \<open>
  \<open>random.choice(seq)\<close> raises \<open>IndexError\<close> on an empty sequence and otherwise returns
  the element at a random index below \<open>len(seq)\<close>; \<open>r\<close> is the raw draw, reduced
  modulo the length.
\<close>

definition choice :: "'a list \<Rightarrow> nat \<Rightarrow> py_error + 'a" where
  "choice seq r = (if seq = [] then Inl IndexError else Inr (seq ! (r mod length seq)))"

text \<open>\<open>str.lower()\<close> on the ASCII letters; other characters are unchanged.\<close>

definition lower_char :: "char \<Rightarrow> char" where
  "lower_char c =
     (let n = (of_char c :: nat) in if 65 \<le> n \<and> n \<le> 90 then char_of (n + 32) else c)"

definition lower :: "string \<Rightarrow> string" where
  "lower s = map lower_char s"


subsection \<open>Instrument synthesis via harmonics\<close>

definition piano_wave :: "real \<Rightarrow> real \<Rightarrow> real" where
  "piano_wave freq t =
     (1.0 * sin (2 * pi * freq * t)
      + 0.5 * sin (2 * pi * freq * 2 * t)
      + 0.25 * sin (2 * pi * freq * 3 * t)) * exp (- 3 * t)"

definition flute_wave :: "real \<Rightarrow> real \<Rightarrow> real" where
  "flute_wave freq t = sin (2 * pi * freq * t) * exp (- 0.8 * t)"

definition pad_wave :: "real \<Rightarrow> real \<Rightarrow> real" where
  "pad_wave freq t =
     (0.6 * sin (2 * pi * freq * t)
      + 0.3 * sin (2 * pi * 0.5 * freq * t)
      + 0.2 * sin (2 * pi * 1.5 * freq * t))"

definition bass_wave :: "real \<Rightarrow> real \<Rightarrow> real" where
  "bass_wave freq t = sin (2 * pi * (freq * 0.5) * t) * exp (- 1.5 * t)"

definition instrument_wave :: "string \<Rightarrow> real \<Rightarrow> real \<Rightarrow> real" where
  "instrument_wave name freq t =
     (let name = lower name in
      if name = ''piano'' then piano_wave freq t
      else if name = ''flute'' then flute_wave freq t
      else if name = ''pad'' then pad_wave freq t
      else if name = ''bass'' then bass_wave freq t
      else sin (2 * pi * freq * t))"

subsection \<open>Tone generation\<close>

definition SAMPLE_RATE :: real where
  "SAMPLE_RATE = 44100"

text \<open>
  The argument \<open>2 * math.pi * frequency * t\<close> of \<open>math.sin\<close>, evaluated from the left,
  and the difference \<open>t * frequency - math.floor(0.5 + t * frequency)\<close> of the saw
  and triangle branches. \<open>math.floor\<close> returns an integer that is a double, so its
  conversion back to a float is exact.
\<close>

definition sine_phase :: "real \<Rightarrow> real \<Rightarrow> real" where
  "sine_phase frequency t = fl64 (fl64 (fl64 (2 * PI64) * frequency) * t)"

definition saw_phase :: "real \<Rightarrow> real \<Rightarrow> real" where
  "saw_phase frequency t =
     fl64 (fl64 (t * frequency) - of_int \<lfloor>fl64 (0.5 + fl64 (t * frequency))\<rfloor>)"

text \<open>
  The \<open>if\<close>/\<open>elif\<close> chain over \<open>waveform\<close> in the loop body of \<open>generate_tone\<close>;
  \<open>msin\<close> is \<open>math.sin\<close> and \<open>u\<close> is the value of \<open>random.random()\<close> that the noise
  branch consumes.
\<close>

definition waveform_value ::
  "(real \<Rightarrow> real) \<Rightarrow> string \<Rightarrow> real \<Rightarrow> real \<Rightarrow> real \<Rightarrow> real" where
  "waveform_value msin waveform frequency t u =
     (if waveform = ''sine'' then msin (sine_phase frequency t)
      else if waveform = ''square'' then
        (if msin (sine_phase frequency t) \<ge> 0 then 1.0 else - 1.0)
      else if waveform = ''saw'' then
        fl64 (2 * saw_phase frequency t)
      else if waveform = ''triangle'' then
        fl64 (fl64 (2 * \<bar>fl64 (2 * saw_phase frequency t)\<bar>) - 1)
      else if waveform = ''noise'' then uniform (- 1.0) 1.0 u
      else 0.0)"

text \<open>
  \<open>if instrument:\<close> is Python truthiness: \<open>None\<close> and the empty string take the
  waveform branch.
\<close>

definition truthy :: "string option \<Rightarrow> bool" where
  "truthy instrument = (case instrument of None \<Rightarrow> False | Some name \<Rightarrow> name \<noteq> [])"

definition tone_value ::
  "(real \<Rightarrow> real) \<Rightarrow> real \<Rightarrow> string \<Rightarrow> string option \<Rightarrow> real \<Rightarrow> real \<Rightarrow> real" where
  "tone_value msin frequency waveform instrument t u =
     (if truthy instrument then instrument_wave (the instrument) frequency t
      else waveform_value msin waveform frequency t u)"

text \<open>
  The loop \<open>for i in range(num_samples)\<close> writes \<open>audio[i] = value * volume\<close> into the
  zero-filled array; \<open>rnd i\<close> is the value of \<open>random.random()\<close> in iteration \<open>i\<close>.
\<close>

fun fill_tone ::
  "(nat \<Rightarrow> real) \<Rightarrow> nat list \<Rightarrow> real list \<Rightarrow> real list" where
  "fill_tone sample [] audio = audio"
| "fill_tone sample (i # rest) audio = fill_tone sample rest (audio[i := sample i])"

text \<open>
  \<open>num_samples\<close> is \<open>int\<close> of the double product \<open>sample_rate * duration\<close>, and
  \<open>np.zeros(num_samples)\<close> raises \<open>ValueError\<close> for a negative size. The time
  \<open>t = i / sample_rate\<close> is the double quotient; the division is reached only when
  \<open>num_samples > 0\<close>, where \<open>sample_rate\<close> is not zero.
\<close>

definition generate_tone ::
  "(real \<Rightarrow> real) \<Rightarrow> real \<Rightarrow> real \<Rightarrow> real \<Rightarrow> string \<Rightarrow> real \<Rightarrow> string option
     \<Rightarrow> (nat \<Rightarrow> real) \<Rightarrow> py_error + real list" where
  "generate_tone msin frequency duration volume waveform sample_rate instrument rnd =
     (let num_samples = py_int (fl64 (sample_rate * duration)) in
      if num_samples < 0 then Inl ValueError
      else Inr (fill_tone
        (\<lambda>i. tone_value msin frequency waveform instrument
               (fl64 (real i / sample_rate)) (rnd i) * volume)
        [0..<nat num_samples]
        (replicate (nat num_samples) 0)))"

subsection \<open>Conversion to 16-bit PCM in \<open>save_wav\<close>\<close>


subsection \<open>Notes and the Markov chain\<close>

definition NOTE_FREQ :: "string \<rightharpoonup> real" where
  "NOTE_FREQ =
     [''C4'' \<mapsto> 261.63, ''D4'' \<mapsto> 293.66, ''E4'' \<mapsto> 329.63, ''F4'' \<mapsto> 349.23,
      ''G4'' \<mapsto> 392.00, ''A4'' \<mapsto> 440.00, ''B4'' \<mapsto> 493.88, ''C5'' \<mapsto> 523.25,
      ''A3'' \<mapsto> 220.00, ''Bb4'' \<mapsto> 466.16, ''Db4'' \<mapsto> 277.18, ''Gb4'' \<mapsto> 369.99]"

definition training_melody :: "string list" where
  "training_melody =
     [''C4'', ''D4'', ''E4'', ''G4'', ''A4'',
      ''A4'', ''G4'', ''E4'', ''D4'', ''C4'',
      ''C4'', ''E4'', ''G4'', ''C5'',
      ''G4'', ''E4'', ''D4'', ''C4'']"

text \<open>
  The loop of \<open>build_markov_chain\<close> over the adjacent pairs \<open>melody[i]\<close>,
  \<open>melody[i+1]\<close>; \<open>markov.setdefault(curr, []).append(nxt)\<close> appends to the list
  stored under \<open>curr\<close> (here \<open>cur\<close>), starting from the empty list.
\<close>

fun markov_loop :: "string list \<Rightarrow> (string \<rightharpoonup> string list) \<Rightarrow> (string \<rightharpoonup> string list)" where
  "markov_loop (cur # nxt # rest) markov =
     markov_loop (nxt # rest)
       (markov(cur \<mapsto> (case markov cur of None \<Rightarrow> [] | Some l \<Rightarrow> l) @ [nxt]))"
| "markov_loop melody markov = markov"

definition build_markov_chain :: "string list \<Rightarrow> (string \<rightharpoonup> string list)" where
  "build_markov_chain melody = markov_loop melody Map.empty"

definition MARKOV :: "string \<rightharpoonup> string list" where
  "MARKOV = build_markov_chain training_melody"

text \<open>
  One pass of the loop body of \<open>generate_ai_melody\<close> after the append: the next note
  is drawn from the transitions of \<open>current\<close> when it is a key of the model, and from
  the training melody otherwise.
\<close>

definition next_note ::
  "(string \<rightharpoonup> string list) \<Rightarrow> string list \<Rightarrow> string \<Rightarrow> nat \<Rightarrow> py_error + string" where
  "next_note markov training current r =
     (case markov current of
        Some nexts \<Rightarrow> choice nexts r
      | None \<Rightarrow> choice training r)"

text \<open>
  \<open>for _ in range(length)\<close>: \<open>n\<close> iterations remain, \<open>k\<close> counts the calls of
  \<open>random.choice\<close> made so far and \<open>rnd k\<close> is the draw of call \<open>k\<close>.
\<close>

fun ai_melody_loop ::
  "(string \<rightharpoonup> string list) \<Rightarrow> string list \<Rightarrow> (nat \<Rightarrow> nat) \<Rightarrow> nat \<Rightarrow> nat \<Rightarrow> string
     \<Rightarrow> string list \<Rightarrow> py_error + string list" where
  "ai_melody_loop markov training rnd k 0 current melody = Inr melody"
| "ai_melody_loop markov training rnd k (Suc n) current melody =
     (case next_note markov training current (rnd k) of
        Inl e \<Rightarrow> Inl e
      | Inr nxt \<Rightarrow> ai_melody_loop markov training rnd (Suc k) n nxt (melody @ [current]))"

text \<open>\<open>range(length)\<close> is empty for a negative \<open>length\<close> (here \<open>len\<close>).\<close>

definition generate_ai_melody :: "int \<Rightarrow> (nat \<Rightarrow> nat) \<Rightarrow> py_error + string list" where
  "generate_ai_melody len rnd =
     (case choice training_melody (rnd 0) of
        Inl e \<Rightarrow> Inl e
      | Inr current \<Rightarrow> ai_melody_loop MARKOV training_melody rnd 1 (nat len) current [])"

definition melody_to_frequencies :: "string list \<Rightarrow> real list" where
  "melody_to_frequencies melody =
     map (\<lambda>note. case NOTE_FREQ note of Some f \<Rightarrow> f | None \<Rightarrow> 440.0) melody"

subsection \<open>Emotion-based melodies\<close>

definition emotion_patterns :: "string \<rightharpoonup> string list" where
  "emotion_patterns =
     [''happy'' \<mapsto> [''C4'', ''E4'', ''G4'', ''C5'', ''A4'', ''G4'', ''E4''],
      ''sad'' \<mapsto> [''A3'', ''C4'', ''D4'', ''F4'', ''E4'', ''D4'', ''C4''],
      ''romantic'' \<mapsto> [''C4'', ''E4'', ''G4'', ''B4'', ''A4'', ''G4'', ''E4'', ''D4''],
      ''suspense'' \<mapsto> [''C4'', ''Db4'', ''E4'', ''Gb4'', ''A4'', ''Bb4'', ''C5'']]"

text \<open>
  The list comprehension \<open>[random.choice(base) for _ in range(length)]\<close>: \<open>n\<close> draws
  remain and \<open>rnd k\<close> is the draw of call \<open>k\<close>.
\<close>

fun draw_notes :: "string list \<Rightarrow> (nat \<Rightarrow> nat) \<Rightarrow> nat \<Rightarrow> nat \<Rightarrow> py_error + string list" where
  "draw_notes base rnd k 0 = Inr []"
| "draw_notes base rnd k (Suc n) =
     (case choice base (rnd k) of
        Inl e \<Rightarrow> Inl e
      | Inr note \<Rightarrow>
          (case draw_notes base rnd (Suc k) n of
             Inl e \<Rightarrow> Inl e
           | Inr notes \<Rightarrow> Inr (note # notes)))"

text \<open>
  \<open>emotion_patterns.get(emotion, emotion_patterns['happy'])\<close> evaluates the default
  first: a missing \<open>'happy'\<close> key would raise \<open>KeyError\<close>.
\<close>

definition generate_emotional_melody ::
  "string \<Rightarrow> int \<Rightarrow> (nat \<Rightarrow> nat) \<Rightarrow> py_error + string list" where
  "generate_emotional_melody emotion len rnd =
     (case emotion_patterns ''happy'' of
        None \<Rightarrow> Inl KeyError
      | Some happy \<Rightarrow>
          (let base = (case emotion_patterns emotion of Some pool \<Rightarrow> pool | None \<Rightarrow> happy)
           in draw_notes base rnd 0 (nat len)))"

section \<open>Properties of the rounding\<close>

lemma powr_powi_2: "2 powr real_of_int k = (2 :: real) powi k"
  by (rule powr_real_of_int') simp_all

lemma floor_log2_binade:
  assumes "2 powi k \<le> x" and "x < 2 powi (k + 1)"
  shows "\<lfloor>log 2 x\<rfloor> = k"
proof -
  have pos: "0 < x"
    using assms(1) zero_less_power_int [of "2 :: real" k] by linarith
  have "\<lfloor>log 2 x\<rfloor> = k \<longleftrightarrow> 2 powr real_of_int k \<le> x \<and> x < 2 powr real_of_int (k + 1)"
    by (rule floor_log_eq_powr_iff [OF pos]) simp
  then show ?thesis
    using assms unfolding powr_powi_2 by blast
qed

lemma binade_floor_log2:
  assumes "0 < x"
  shows "2 powi \<lfloor>log 2 x\<rfloor> \<le> x \<and> x < 2 powi (\<lfloor>log 2 x\<rfloor> + 1)"
proof -
  have "\<lfloor>log 2 x\<rfloor> = \<lfloor>log 2 x\<rfloor> \<longleftrightarrow>
      2 powr real_of_int \<lfloor>log 2 x\<rfloor> \<le> x \<and> x < 2 powr real_of_int (\<lfloor>log 2 x\<rfloor> + 1)"
    by (rule floor_log_eq_powr_iff [OF assms]) simp
  then show ?thesis
    unfolding powr_powi_2 by blast
qed

lemma round_even_near:
  assumes "of_int n - 1/2 < y" and "y < of_int n + 1/2"
  shows "round_even y = n"
proof (cases "of_int n \<le> y")
  case True
  with assms have "\<lfloor>y\<rfloor> = n" by linarith
  with assms show ?thesis by (simp add: round_even_def Let_def)
next
  case False
  with assms have "\<lfloor>y\<rfloor> = n - 1" by linarith
  with assms False show ?thesis by (simp add: round_even_def Let_def)
qed

lemma round_even_tie:
  assumes "y = of_int n + 1/2"
  shows "round_even y = (if even n then n else n + 1)"
proof -
  from assms have "\<lfloor>y\<rfloor> = n" by linarith
  with assms show ?thesis by (simp add: round_even_def Let_def)
qed

lemma round_to_eval:
  assumes "2 powi k \<le> \<bar>x\<bar>" and "\<bar>x\<bar> < 2 powi (k + 1)"
    and "u = 2 powi (k - int p + 1)" and "round_even (x / u) = m"
  shows "round_to p x = of_int m * u"
proof -
  have "0 < \<bar>x\<bar>"
    using assms(1) zero_less_power_int [of "2 :: real" k] by linarith
  then have "x \<noteq> 0" by simp
  moreover have "\<lfloor>log 2 \<bar>x\<bar>\<rfloor> = k"
    using assms(1,2) by (rule floor_log2_binade)
  ultimately show ?thesis
    using assms(3,4) by (simp add: round_to_def Let_def)
qed

lemma round_even_bounds:
  "of_int (round_even y) - 1/2 \<le> y \<and> y \<le> of_int (round_even y) + 1/2"
  unfolding round_even_def Let_def by (simp; linarith)

lemma round_even_of_int: "round_even (of_int n) = n"
  by (rule round_even_near) simp_all

lemma round_even_mono:
  assumes "x \<le> y"
  shows "round_even x \<le> round_even y"
proof (rule ccontr)
  assume "\<not> round_even x \<le> round_even y"
  then have gt: "round_even y + 1 \<le> round_even x" by simp
  then have "of_int (round_even y) + (1 :: real) \<le> of_int (round_even x)"
    by linarith
  with round_even_bounds [of x] round_even_bounds [of y] assms
  have "x = y" by linarith
  with gt show False by simp
qed

lemma round_even_minus: "round_even (- y) = - round_even y"
proof (cases "y - of_int \<lfloor>y\<rfloor> = 1/2")
  case True
  then have y: "y = of_int \<lfloor>y\<rfloor> + 1/2" by simp
  then have my: "- y = of_int (- \<lfloor>y\<rfloor> - 1) + 1/2" by simp
  show ?thesis
    using round_even_tie [OF y] round_even_tie [OF my] by auto
next
  case False
  have b: "of_int (round_even y) - 1/2 \<le> y" "y \<le> of_int (round_even y) + 1/2"
    using round_even_bounds [of y] by simp_all
  have ne1: "y \<noteq> of_int (round_even y) - 1/2"
  proof
    assume "y = of_int (round_even y) - 1/2"
    then have "y = of_int (round_even y - 1) + 1/2" by simp
    then have "\<lfloor>y\<rfloor> = round_even y - 1" by linarith
    with \<open>y = of_int (round_even y - 1) + 1/2\<close> False show False by simp
  qed
  have ne2: "y \<noteq> of_int (round_even y) + 1/2"
  proof
    assume eq: "y = of_int (round_even y) + 1/2"
    then have "\<lfloor>y\<rfloor> = round_even y" by linarith
    with eq False show False by simp
  qed
  show ?thesis
    by (rule round_even_near) (use b ne1 ne2 in simp_all)
qed

lemma round_to_0: "round_to p 0 = 0"
  by (simp add: round_to_def)

lemma round_to_minus: "round_to p (- x) = - round_to p x"
  by (simp add: round_to_def Let_def round_even_minus)

lemma round_to_pos_unfold:
  assumes "0 < x"
  defines "e \<equiv> \<lfloor>log 2 x\<rfloor>"
  shows "round_to p x = of_int (round_even (x / 2 powi (e - int p + 1))) * 2 powi (e - int p + 1)"
  using assms by (simp add: round_to_def Let_def)

lemma powi_split: "(2 :: real) powi (e + 1) = 2 powi int p * 2 powi (e - int p + 1)"
proof -
  have "(2 :: real) powi (int p + (e - int p + 1)) = 2 powi int p * 2 powi (e - int p + 1)"
    by (rule power_int_add) simp
  then show ?thesis by (simp add: algebra_simps)
qed

lemma powi_split': 
  assumes "1 \<le> p"
  shows "(2 :: real) powi e = 2 powi (int p - 1) * 2 powi (e - int p + 1)"
proof -
  have "(2 :: real) powi ((int p - 1) + (e - int p + 1)) = 2 powi (int p - 1) * 2 powi (e - int p + 1)"
    by (rule power_int_add) simp
  then show ?thesis by (simp add: algebra_simps)
qed

lemma powi_of_int_nat: "0 \<le> k \<Longrightarrow> (2 :: real) powi k = of_int (2 ^ nat k)"
  by (simp add: power_int_def)

lemma round_to_pos_bounds:
  assumes "0 < x" and "1 \<le> p"
  defines "e \<equiv> \<lfloor>log 2 x\<rfloor>"
  shows "2 powi e \<le> round_to p x" and "round_to p x \<le> 2 powi (e + 1)"
proof -
  let ?u = "(2 :: real) powi (e - int p + 1)"
  have u: "0 < ?u" by (rule zero_less_power_int) simp
  have bin: "2 powi e \<le> x" "x < 2 powi (e + 1)"
    using binade_floor_log2 [OF assms(1)] by (simp_all add: e_def)
  have rt: "round_to p x = of_int (round_even (x / ?u)) * ?u"
    unfolding e_def by (rule round_to_pos_unfold) fact
  have lo: "of_int (2 ^ nat (int p - 1)) \<le> x / ?u"
  proof -
    have "2 powi (int p - 1) * ?u \<le> x"
      using bin(1) powi_split' [OF assms(2), of e] by simp
    then have "2 powi (int p - 1) \<le> x / ?u"
      using u by (simp add: pos_le_divide_eq)
    moreover have "(2 :: real) powi (int p - 1) = of_int (2 ^ nat (int p - 1))"
      by (rule powi_of_int_nat) (use assms(2) in simp)
    ultimately show ?thesis by simp
  qed
  have hi: "x / ?u \<le> of_int (2 ^ p)"
  proof -
    have "x \<le> 2 powi int p * ?u"
      using bin(2) powi_split [of e p] by simp
    then have "x / ?u \<le> 2 powi int p"
      using u by (simp add: pos_divide_le_eq)
    then show ?thesis by simp
  qed
  from round_even_mono [OF lo] have "2 ^ nat (int p - 1) \<le> round_even (x / ?u)"
    by (simp only: round_even_of_int)
  then have "(of_int (2 ^ nat (int p - 1)) :: real) \<le> of_int (round_even (x / ?u))"
    by (simp only: of_int_le_iff)
  then have A: "of_int (2 ^ nat (int p - 1)) * ?u \<le> of_int (round_even (x / ?u)) * ?u"
    using u by (simp only: mult_le_cancel_right_pos)
  have B: "of_int (2 ^ nat (int p - 1)) * ?u = 2 powi e"
    using powi_split' [OF assms(2), of e] powi_of_int_nat [of "int p - 1"] assms(2) by simp
  show "2 powi e \<le> round_to p x"
    unfolding rt B [symmetric] by (rule A)
  from round_even_mono [OF hi] have "round_even (x / ?u) \<le> 2 ^ p"
    by (simp only: round_even_of_int)
  then have "(of_int (round_even (x / ?u)) :: real) \<le> of_int (2 ^ p)"
    by (simp only: of_int_le_iff)
  then have C: "of_int (round_even (x / ?u)) * ?u \<le> of_int (2 ^ p) * ?u"
    using u by (simp only: mult_le_cancel_right_pos)
  have D: "of_int (2 ^ p) * ?u = 2 powi (e + 1)"
    using powi_split [of e p] by simp
  show "round_to p x \<le> 2 powi (e + 1)"
    unfolding rt D [symmetric] by (rule C)
qed

lemma round_to_pos_mono:
  assumes "0 < x" and "x \<le> y" and "1 \<le> p"
  shows "round_to p x \<le> round_to p y"
proof -
  have y: "0 < y" using assms by simp
  have le: "\<lfloor>log 2 x\<rfloor> \<le> \<lfloor>log 2 y\<rfloor>"
    using assms by (intro floor_mono) simp
  show ?thesis
  proof (cases "\<lfloor>log 2 x\<rfloor> = \<lfloor>log 2 y\<rfloor>")
    case True
    let ?u = "(2 :: real) powi (\<lfloor>log 2 y\<rfloor> - int p + 1)"
    have u: "0 < ?u" by (rule zero_less_power_int) simp
    have "x / ?u \<le> y / ?u"
      using assms(2) u by (simp add: divide_right_mono)
    then have "round_even (x / ?u) \<le> round_even (y / ?u)"
      by (rule round_even_mono)
    then have "(of_int (round_even (x / ?u)) :: real) * ?u \<le> of_int (round_even (y / ?u)) * ?u"
      using u by simp
    then show ?thesis
      unfolding round_to_pos_unfold [OF assms(1)] round_to_pos_unfold [OF y] True .
  next
    case False
    with le have "\<lfloor>log 2 x\<rfloor> + 1 \<le> \<lfloor>log 2 y\<rfloor>" by simp
    then have "(2 :: real) powi (\<lfloor>log 2 x\<rfloor> + 1) \<le> 2 powi \<lfloor>log 2 y\<rfloor>"
      by (rule power_int_increasing) simp
    with round_to_pos_bounds(2) [OF assms(1,3)] round_to_pos_bounds(1) [OF y assms(3)]
    show ?thesis by linarith
  qed
qed

lemma round_to_pos: "0 < x \<Longrightarrow> 1 \<le> p \<Longrightarrow> 0 < round_to p x"
  using round_to_pos_bounds(1) [of x p] zero_less_power_int [of "2 :: real" "\<lfloor>log 2 x\<rfloor>"]
  by linarith

lemma round_to_mono:
  assumes "x \<le> y" and "1 \<le> p"
  shows "round_to p x \<le> round_to p y"
proof -
  consider "0 < x" | "x = 0" "y = 0" | "x = 0" "0 < y" | "x < 0" "0 < y" | "x < 0" "y = 0"
    | "x < 0" "y < 0"
    using assms(1) by linarith
  then show ?thesis
  proof cases
    case 1
    then show ?thesis using assms by (rule round_to_pos_mono)
  next
    case 2
    then show ?thesis by simp
  next
    case 3
    then show ?thesis using round_to_pos [of y p] assms(2) by (simp add: round_to_0)
  next
    case 4
    have "0 < round_to p (- x)" using 4 assms(2) by (intro round_to_pos) simp_all
    moreover have "0 < round_to p y" using 4 assms(2) by (intro round_to_pos) simp_all
    ultimately show ?thesis by (simp add: round_to_minus)
  next
    case 5
    have "0 < round_to p (- x)" using 5 assms(2) by (intro round_to_pos) simp_all
    then show ?thesis using 5 by (simp add: round_to_minus round_to_0)
  next
    case 6
    have "round_to p (- y) \<le> round_to p (- x)"
      using 6 assms by (intro round_to_pos_mono) simp_all
    then show ?thesis by (simp add: round_to_minus)
  qed
qed

lemma round_to_error:
  assumes "1 \<le> p"
  shows "\<bar>round_to p x - x\<bar> \<le> \<bar>x\<bar> / 2 ^ p"
proof (cases "x = 0")
  case True
  then show ?thesis by (simp add: round_to_0)
next
  case False
  define e where "e = \<lfloor>log 2 \<bar>x\<bar>\<rfloor>"
  let ?u = "(2 :: real) powi (e - int p + 1)"
  have u: "0 < ?u" by (rule zero_less_power_int) simp
  have ax: "0 < \<bar>x\<bar>" using False by simp
  have bin: "2 powi e \<le> \<bar>x\<bar>"
    using binade_floor_log2 [OF ax] by (simp add: e_def)
  have rt: "round_to p x = of_int (round_even (x / ?u)) * ?u"
    using False by (simp add: round_to_def Let_def e_def)
  have "\<bar>of_int (round_even (x / ?u)) - x / ?u\<bar> \<le> 1/2"
    using round_even_bounds [of "x / ?u"] by linarith
  then have "\<bar>of_int (round_even (x / ?u)) - x / ?u\<bar> * ?u \<le> 1/2 * ?u"
    using u by (simp only: mult_le_cancel_right_pos)
  moreover have "\<bar>of_int (round_even (x / ?u)) - x / ?u\<bar> * ?u = \<bar>round_to p x - x\<bar>"
  proof -
    have "\<bar>of_int (round_even (x / ?u)) - x / ?u\<bar> * ?u
        = \<bar>(of_int (round_even (x / ?u)) - x / ?u) * ?u\<bar>"
      using u by (simp add: abs_mult)
    also have "(of_int (round_even (x / ?u)) - x / ?u) * ?u = round_to p x - x"
      using u by (simp add: rt algebra_simps)
    finally show ?thesis .
  qed
  moreover have "1/2 * ?u = 2 powi e / 2 ^ p"
  proof -
    have "(2 :: real) powi (e + 1) = 2 * 2 powi e"
      by (rule power_int_add_1') simp
    with powi_split [of e p] have "2 * 2 powi e = 2 ^ p * ?u" by simp
    then show ?thesis by (simp add: field_simps)
  qed
  moreover have "2 powi e / 2 ^ p \<le> \<bar>x\<bar> / 2 ^ p"
    using bin by (simp add: divide_right_mono)
  ultimately show ?thesis by linarith
qed

lemma round_to_exact:
  assumes "\<bar>m\<bar> < 2 ^ p" and "1 \<le> p"
  shows "round_to p (of_int m * 2 powi j) = of_int m * 2 powi j"
proof (cases "m = 0")
  case True
  then show ?thesis by (simp add: round_to_0)
next
  case False
  let ?x = "of_int m * (2 :: real) powi j"
  define e where "e = \<lfloor>log 2 \<bar>?x\<bar>\<rfloor>"
  let ?u = "(2 :: real) powi (e - int p + 1)"
  have pj: "0 < (2 :: real) powi j" by (rule zero_less_power_int) simp
  have u: "0 < ?u" by (rule zero_less_power_int) simp
  have ax: "\<bar>?x\<bar> = of_int \<bar>m\<bar> * 2 powi j"
    using pj by (simp add: abs_mult)
  have xpos: "0 < \<bar>?x\<bar>"
    using False pj by simp
  have "2 powi e \<le> \<bar>?x\<bar>"
    using binade_floor_log2 [OF xpos] by (simp add: e_def)
  also have "\<bar>?x\<bar> < of_int (2 ^ p) * 2 powi j"
    unfolding ax using assms(1) pj by (simp only: mult_less_cancel_right_pos of_int_less_iff)
  also have "of_int (2 ^ p) * 2 powi j = (2 :: real) powi (int p + j)"
    by (simp add: power_int_add)
  finally have "(2 :: real) powi e < 2 powi (int p + j)" .
  then have "e < int p + j"
    by (metis linorder_not_le power_int_increasing one_le_numeral)
  then have k: "0 \<le> j - (e - int p + 1)" by simp
  define k where "k = nat (j - (e - int p + 1))"
  have "(2 :: real) powi (int k + (e - int p + 1)) = 2 powi int k * ?u"
    by (rule power_int_add) simp
  moreover have "int k + (e - int p + 1) = j"
    using k by (simp add: k_def)
  ultimately have split: "(2 :: real) powi j = 2 ^ k * ?u"
    by simp
  have "?x / ?u = of_int (m * 2 ^ k)"
    using u by (simp add: split)
  then have "round_even (?x / ?u) = m * 2 ^ k"
    by (simp only: round_even_of_int)
  then have "of_int (round_even (?x / ?u)) * ?u = ?x"
    by (simp add: split)
  moreover have "round_to p ?x = of_int (round_even (?x / ?u)) * ?u"
    using xpos by (simp add: round_to_def Let_def e_def)
  ultimately show ?thesis by simp
qed

lemma fl64_0: "fl64 0 = 0"
  by (simp add: fl64_def round_to_0)


lemma fl64_mono: "x \<le> y \<Longrightarrow> fl64 x \<le> fl64 y"
  unfolding fl64_def by (rule round_to_mono) simp_all

lemma fl64_error: "\<bar>fl64 x - x\<bar> \<le> \<bar>x\<bar> / 2 ^ 53"
  unfolding fl64_def by (rule round_to_error) simp

lemma fl64_exact: "\<bar>m\<bar> < 2 ^ 53 \<Longrightarrow> fl64 (of_int m * 2 powi j) = of_int m * 2 powi j"
  unfolding fl64_def by (rule round_to_exact) simp_all

lemma fl64_int: "\<bar>m\<bar> < 2 ^ 53 \<Longrightarrow> fl64 (of_int m) = of_int m"
  using fl64_exact [of m 0] by simp

section \<open>Properties of the tone generator\<close>

subsection \<open>The sample loop\<close>

lemma length_fill_tone: "length (fill_tone sample xs audio) = length audio"
  by (induction xs arbitrary: audio) simp_all

lemma nth_fill_tone:
  "i < length audio \<Longrightarrow>
     fill_tone sample xs audio ! i = (if i \<in> set xs then sample i else audio ! i)"
  by (induction xs arbitrary: audio) (auto simp: nth_list_update)

lemma fill_tone_range:
  "fill_tone sample [0..<n] (replicate n z) = map sample [0..<n]"
  by (rule nth_equalityI) (simp_all add: length_fill_tone nth_fill_tone)

lemma generate_tone_samples:
  "generate_tone msin frequency duration volume waveform sample_rate instrument rnd =
     (if py_int (fl64 (sample_rate * duration)) < 0 then Inl ValueError
      else Inr (map (\<lambda>i. tone_value msin frequency waveform instrument
                           (fl64 (real i / sample_rate)) (rnd i) * volume)
                 [0..<nat (py_int (fl64 (sample_rate * duration)))]))"
  by (simp add: generate_tone_def Let_def fill_tone_range)

lemma py_int_neg_iff: "py_int x < 0 \<longleftrightarrow> x \<le> - 1"
  unfolding py_int_def by (auto simp: ceiling_less_iff floor_less_iff)

lemma py_int_nonneg: "0 \<le> x \<Longrightarrow> py_int x = \<lfloor>x\<rfloor>"
  by (simp add: py_int_def)

lemma fl64_nonneg: "0 \<le> x \<Longrightarrow> 0 \<le> fl64 x"
  using fl64_mono [of 0 x] by (simp add: fl64_0)

subsection \<open>Double products used below\<close>

lemma fl64_44100: "fl64 (44100 * 1) = 44100"
  using fl64_int [of 44100] by simp

lemma fl64_minus_44100: "fl64 (44100 * - 1) = - 44100"
  using fl64_int [of "- 44100"] by simp

lemma fl64_short_product: "fl64 (44100 * (5 / 131072)) = 55125 / 32768"
  using fl64_exact [of 55125 "- 15"] by (simp add: power_int_minus)

text \<open>
  \<open>3152519739159347 / 2^53\<close> is the double that Python reads from \<open>0.35\<close>; its
  product with 44100 rounds to \<open>8485480987361279 / 2^39\<close>, just below 15435.
\<close>

lemma fl64_035_product:
  "fl64 (44100 * (3152519739159347 / 9007199254740992)) = 8485480987361279 / 549755813888"
proof -
  have "round_to 53 (44100 * (3152519739159347 / 9007199254740992))
      = of_int 8485480987361279 * (1 / 2 ^ 39)"
  proof (rule round_to_eval [where k = 13])
    show "round_even (44100 * (3152519739159347 / 9007199254740992) / (1 / 2 ^ 39))
        = 8485480987361279"
      by (rule round_even_near) simp_all
  qed (simp_all add: power_int_def power_divide)
  then show ?thesis by (simp add: fl64_def)
qed

subsection \<open>Buffer length\<close>

text \<open>
  C1 (as stated): the buffer of \<open>generate_tone\<close> has \<open>round(sample_rate * duration)\<close>
  samples. It fails at the default sample rate for the duration \<open>5 / 2^17\<close>
  (0.00003814697265625 seconds), where the product 1.68228... rounds to 2 and the
  buffer has one sample, and for the duration 0.35 that the emotion player passes,
  where the double product is just below 15435 and the buffer has 15434 samples.
\<close>

theorem generate_tone_length_counterexample:
  "(\<exists>audio. generate_tone sin 440 (5 / 131072) 0.5 ''sine'' SAMPLE_RATE None (\<lambda>_. 0) = Inr audio \<and>
     length audio = 1 \<and> round (fl64 (SAMPLE_RATE * (5 / 131072))) = (2 :: int)) \<and>
   (\<exists>audio. generate_tone sin 440 (3152519739159347 / 9007199254740992) 0.5 ''sine''
        SAMPLE_RATE None (\<lambda>_. 0) = Inr audio \<and>
     length audio = 15434 \<and>
     round (fl64 (SAMPLE_RATE * (3152519739159347 / 9007199254740992))) = (15435 :: int))"
  unfolding generate_tone_samples SAMPLE_RATE_def fl64_short_product fl64_035_product
  by (simp add: py_int_def round_def)

text \<open>
  C1 (amended): the sample count is \<open>int(sample_rate * duration)\<close>, the double
  product truncated toward zero. For every frequency, volume, waveform and
  instrument, when the double product is above \<open>-1\<close> the buffer has exactly that
  many samples, which is the floor of the double product when the product is not
  negative; when the double product is \<open>-1\<close> or less the count is negative and
  \<open>np.zeros\<close> raises \<open>ValueError\<close>.
\<close>

theorem generate_tone_length:
  "(fl64 (sample_rate * duration) \<le> - 1 \<longrightarrow>
      generate_tone msin frequency duration volume waveform sample_rate instrument rnd
        = Inl ValueError) \<and>
   (- 1 < fl64 (sample_rate * duration) \<longrightarrow>
      (\<exists>audio. generate_tone msin frequency duration volume waveform sample_rate instrument rnd
          = Inr audio \<and>
        int (length audio) = py_int (fl64 (sample_rate * duration)) \<and>
        (0 \<le> sample_rate * duration \<longrightarrow>
           int (length audio) = \<lfloor>fl64 (sample_rate * duration)\<rfloor>)))"
  using py_int_neg_iff [of "fl64 (sample_rate * duration)"]
    fl64_nonneg [of "sample_rate * duration"]
  by (auto simp: generate_tone_samples py_int_nonneg)

theorem generate_tone_length_witness:
  "(\<exists>audio. generate_tone sin 440 1 0.5 ''sine'' 44100 None (\<lambda>_. 0) = Inr audio \<and>
     int (length audio) = 44100) \<and>
   generate_tone sin 440 (- 1) 0.5 ''sine'' 44100 None (\<lambda>_. 0) = Inl ValueError"
  using generate_tone_length
      [of 44100 1 sin 440 "0.5" "''sine''" None "\<lambda>_. 0", unfolded fl64_44100]
    generate_tone_length
      [of 44100 "- 1" sin 440 "0.5" "''sine''" None "\<lambda>_. 0", unfolded fl64_minus_44100]
  by (auto simp: py_int_def)

subsection \<open>Range of the basic waveforms\<close>












subsection \<open>The 440 Hz example\<close>

lemma sin_upper_taylor:
  fixes x :: real
  assumes "0 < x"
  shows "sin x \<le> x - x ^ 3 / 6 + x ^ 5 / 120"
proof -
  from Maclaurin_sin_expansion3 [of 5 x] assms obtain t where
    t: "sin x = (\<Sum>m<5. sin_coeff m * x ^ m) + sin (t + 1/2 * real 5 * pi) / fact 5 * x ^ 5"
    by auto
  have set: "{..<5 :: nat} = {0, 1, 2, 3, 4}" by auto
  have c: "sin_coeff 0 = 0" "sin_coeff (Suc 0) = 1" "sin_coeff 2 = 0" "sin_coeff 3 = - 1 / 6"
    "sin_coeff 4 = 0"
    by (simp_all add: sin_coeff_def fact_numeral)
  have sum: "(\<Sum>m<5. sin_coeff m * x ^ m) = x - x ^ 3 / 6"
    unfolding set by (simp add: c)
  have "sin (t + 1/2 * real 5 * pi) \<le> 1" by (rule sin_le_one)
  then have "sin (t + 1/2 * real 5 * pi) * x ^ 5 \<le> 1 * x ^ 5"
    using assms by (intro mult_right_mono) simp_all
  then have "sin (t + 1/2 * real 5 * pi) / fact 5 * x ^ 5 \<le> x ^ 5 / 120"
    by (simp add: fact_numeral field_simps)
  with t sum show ?thesis by linarith
qed

lemma pi_gt_3141: "3141 / 1000 < pi"
proof (rule ccontr)
  assume "\<not> 3141 / 1000 < pi"
  then have le: "pi / 6 \<le> 5235 / 10000" by simp
  have "sin (pi / 6) \<le> sin (5235 / 10000 :: real)"
  proof (rule sin_monotone_2pi_le)
    show "- (pi / 2) \<le> pi / 6" using pi_ge_zero by linarith
    show "pi / 6 \<le> 5235 / 10000" by (rule le)
    show "5235 / 10000 \<le> pi / 2" using pi_ge_two by linarith
  qed
  moreover have "sin (5235 / 10000 :: real) \<le> 5235 / 10000 - (5235 / 10000) ^ 3 / 6 + (5235 / 10000) ^ 5 / 120"
    by (rule sin_upper_taylor) simp
  moreover have "(5235 / 10000 :: real) - (5235 / 10000) ^ 3 / 6 + (5235 / 10000) ^ 5 / 120 < 1 / 2"
    by (simp add: power_divide)
  ultimately show False
    by (simp add: sin_30)
qed

text \<open>The doubles on the way to the argument of \<open>math.sin\<close> at sample 100.\<close>

lemma fl64_two_pi: "fl64 (2 * PI64) = 884279719003555 / 140737488355328"
  unfolding PI64_def using fl64_exact [of 884279719003555 "- 47"]
  by (simp add: power_int_minus)

lemma fl64_880_pi:
  "fl64 (884279719003555 / 140737488355328 * 440) = 6079423068149441 / 2199023255552"
proof -
  have "round_to 53 (884279719003555 / 140737488355328 * 440)
      = of_int 6079423068149441 * (1 / 2 ^ 41)"
  proof (rule round_to_eval [where k = 11])
    show "round_even (884279719003555 / 140737488355328 * 440 / (1 / 2 ^ 41))
        = 6079423068149441"
      by (rule round_even_near) simp_all
  qed (simp_all add: power_int_def power_divide)
  then show ?thesis by (simp add: fl64_def)
qed

lemma sine_phase_440: "sine_phase 440 t = fl64 (6079423068149441 / 2199023255552 * t)"
  unfolding sine_phase_def fl64_two_pi fl64_880_pi ..

lemma fl64_t100: "fl64 (real 100 / 44100) = 5228668955133093 / 2305843009213693952"
proof -
  have "round_to 53 (real 100 / 44100) = of_int 5228668955133093 * (1 / 2 ^ 61)"
  proof (rule round_to_eval [where k = "- 9"])
    show "round_even (real 100 / 44100 / (1 / 2 ^ 61)) = 5228668955133093"
      by (rule round_even_near) simp_all
  qed (simp_all add: power_int_def power_divide)
  then show ?thesis by (simp add: fl64_def)
qed

lemma fl64_phase_100:
  "fl64 (6079423068149441 / 2199023255552 * (5228668955133093 / 2305843009213693952))
     = 220568637393177 / 35184372088832"
proof -
  have "round_to 53 (6079423068149441 / 2199023255552 * (5228668955133093 / 2305843009213693952))
      = of_int 7058196396581664 * (1 / 2 ^ 50)"
  proof (rule round_to_eval [where k = 2])
    show "round_even (6079423068149441 / 2199023255552
        * (5228668955133093 / 2305843009213693952) / (1 / 2 ^ 50)) = 7058196396581664"
      by (rule round_even_near) simp_all
  qed (simp_all add: power_int_def power_divide)
  then show ?thesis by (simp add: fl64_def)
qed

lemma sine_phase_100:
  "sine_phase 440 (fl64 (real 100 / 44100)) = 220568637393177 / 35184372088832"
  unfolding sine_phase_440 fl64_t100 fl64_phase_100 ..

lemma sin_phase_100_negative: "sin (220568637393177 / 35184372088832 :: real) < 0"
proof (rule sin_lt_zero)
  show "pi < 220568637393177 / 35184372088832"
    using pi_less_4 by simp
  show "220568637393177 / 35184372088832 < 2 * pi"
    using pi_gt_3141 by simp
qed

lemma sine_phase_0: "sine_phase 440 (fl64 (real 0 / 44100)) = 0"
  by (simp add: sine_phase_440 fl64_0)

lemma generate_tone_sine_440_samples:
  "generate_tone msin 440 1 0.5 ''sine'' SAMPLE_RATE None rnd
     = Inr (map (\<lambda>i. msin (sine_phase 440 (fl64 (real i / 44100))) * 0.5) [0..<44100])"
  unfolding generate_tone_samples SAMPLE_RATE_def fl64_44100
  by (simp add: py_int_def tone_value_def truthy_def waveform_value_def)

lemma sine_phase_440_close:
  assumes "i < 44100"
  shows "\<bar>sine_phase 440 (fl64 (real i / 44100)) - 2 * PI64 * 440 * (real i / 44100)\<bar>
           \<le> 1 / 10 ^ 11"
proof -
  define tau where "tau = real i / 44100"
  define t where "t = fl64 tau"
  define c where "c = (6079423068149441 / 2199023255552 :: real)"
  have tau: "0 \<le> tau" "tau \<le> 1"
    using assms by (simp_all add: tau_def)
  have t0: "0 \<le> t"
    unfolding t_def using tau(1) by (rule fl64_nonneg)
  have terr: "\<bar>t - tau\<bar> \<le> tau / 2 ^ 53"
    using fl64_error [of tau] tau(1) by (simp add: t_def)
  have small: "tau / 2 ^ 53 \<le> 1 / 2 ^ 53"
    using tau(2) by (simp add: divide_right_mono)
  have "(1 :: real) / 2 ^ 53 \<le> 1" by simp
  with terr small tau(2) have t2: "t \<le> 2"
    by linarith
  have perr: "\<bar>fl64 (c * t) - c * t\<bar> \<le> c * t / 2 ^ 53"
    using fl64_error [of "c * t"] t0 by (simp add: c_def abs_mult)
  have cerr: "\<bar>c - 2 * PI64 * 440\<bar> \<le> 1 / 10 ^ 12"
    by (simp add: c_def PI64_def)
  have c3: "c \<le> 2765" by (simp add: c_def)
  have c0: "0 \<le> c" by (simp add: c_def)
  have "fl64 (c * t) - 2 * PI64 * 440 * tau
      = (fl64 (c * t) - c * t) + c * (t - tau) + (c - 2 * PI64 * 440) * tau"
    by (simp add: algebra_simps)
  then have "\<bar>fl64 (c * t) - 2 * PI64 * 440 * tau\<bar>
      \<le> \<bar>fl64 (c * t) - c * t\<bar> + \<bar>c * (t - tau)\<bar> + \<bar>(c - 2 * PI64 * 440) * tau\<bar>"
    by linarith
  moreover have "\<bar>fl64 (c * t) - c * t\<bar> \<le> 2765 * 2 / 2 ^ 53"
  proof -
    have "c * t \<le> 2765 * 2"
      using c3 c0 t0 t2 by (intro mult_mono) simp_all
    then have "c * t / 2 ^ 53 \<le> 2765 * 2 / 2 ^ 53"
      by (simp add: divide_right_mono)
    with perr show ?thesis by linarith
  qed
  moreover have "\<bar>c * (t - tau)\<bar> \<le> 2765 * (1 / 2 ^ 53)"
  proof -
    have "\<bar>t - tau\<bar> \<le> 1 / 2 ^ 53"
      using terr small by linarith
    then have "c * \<bar>t - tau\<bar> \<le> 2765 * (1 / 2 ^ 53)"
      using c3 c0 by (intro mult_mono) simp_all
    then show ?thesis using c0 by (simp add: abs_mult)
  qed
  moreover have "\<bar>(c - 2 * PI64 * 440) * tau\<bar> \<le> 1 / 10 ^ 12"
  proof -
    have "\<bar>c - 2 * PI64 * 440\<bar> * tau \<le> 1 / 10 ^ 12 * 1"
      using cerr tau by (intro mult_mono) simp_all
    then show ?thesis using tau(1) by (simp add: abs_mult)
  qed
  ultimately have "\<bar>fl64 (c * t) - 2 * PI64 * 440 * tau\<bar>
      \<le> 2765 * 2 / 2 ^ 53 + 2765 * (1 / 2 ^ 53) + 1 / 10 ^ 12"
    by linarith
  also have "\<dots> \<le> 1 / 10 ^ 11" by simp
  finally show ?thesis
    by (simp add: sine_phase_440 c_def t_def tau_def)
qed

text \<open>
  C5 (as stated): the samples of \<open>generate_tone(440.0, 1.0, 0.5, "sine")\<close> trace a sine
  of period 100 samples. A signal of period 100 has the same value at index 100 as
  at index 0. With any library sine that returns \<open>0.0\<close> at \<open>0.0\<close> and a negative value
  wherever the sine is negative, sample 0 is \<open>0.0\<close> and sample 100 is negative: the
  argument at sample 100 is the double 6.2689..., between \<open>pi\<close> and \<open>2 * pi\<close>.
\<close>

theorem generate_tone_sine_440_counterexample:
  "\<not> (\<exists>msin. msin 0 = 0 \<and> (\<forall>x. sin x < 0 \<longrightarrow> msin x < 0) \<and>
        (\<exists>audio. generate_tone msin 440 1 0.5 ''sine'' SAMPLE_RATE None (\<lambda>_. 0) = Inr audio \<and>
           audio ! (0 + 100) = audio ! 0))"
proof
  assume "\<exists>msin. msin 0 = 0 \<and> (\<forall>x. sin x < 0 \<longrightarrow> msin x < 0) \<and>
        (\<exists>audio. generate_tone msin 440 1 0.5 ''sine'' SAMPLE_RATE None (\<lambda>_. 0) = Inr audio \<and>
           audio ! (0 + 100) = audio ! 0)"
  then obtain msin :: "real \<Rightarrow> real" and audio where
    zero: "msin 0 = 0" and sign: "\<forall>x. sin x < 0 \<longrightarrow> msin x < 0"
    and gen: "generate_tone msin 440 1 0.5 ''sine'' SAMPLE_RATE None (\<lambda>_. 0) = Inr audio"
    and eq: "audio ! (0 + 100) = audio ! 0"
    by blast
  let ?audio = "map (\<lambda>i. msin (sine_phase 440 (fl64 (real i / 44100))) * 0.5) [0..<44100]"
  from gen have audio: "audio = ?audio"
    unfolding generate_tone_sine_440_samples by simp
  have "?audio ! 100 = msin (sine_phase 440 (fl64 (real 100 / 44100))) * 0.5"
    by (subst nth_map) simp_all
  then have a100: "?audio ! 100 = msin (220568637393177 / 35184372088832) * 0.5"
    unfolding sine_phase_100 .
  have "?audio ! 0 = msin (sine_phase 440 (fl64 (real 0 / 44100))) * 0.5"
    by (subst nth_map) simp_all
  then have a0: "?audio ! 0 = 0"
    unfolding sine_phase_0 by (simp add: zero)
  from sign sin_phase_100_negative have "msin (220568637393177 / 35184372088832) < 0"
    by blast
  with a100 a0 eq audio show False by simp
qed

text \<open>
  C5 (amended): \<open>generate_tone(440.0, 1.0, 0.5, "sine")\<close> at 44,100 Hz returns exactly
  44,100 samples; sample \<open>i\<close> is 0.5 times \<open>math.sin\<close> of the double argument, which
  is within \<open>10^-11\<close> of \<open>2 * math.pi * 440 * i / 44100\<close>, so the samples trace a sine
  scaled by 0.5 whose period is \<open>44100 / 440\<close> (about 100.23) samples, not 100;
  sample 0 is \<open>0.0\<close> when the library sine of \<open>0.0\<close> is \<open>0.0\<close>, and sample 100 is
  negative when the library sine is negative wherever the sine is.
\<close>

theorem generate_tone_sine_440:
  "\<exists>audio. generate_tone msin 440 1 0.5 ''sine'' SAMPLE_RATE None rnd = Inr audio \<and>
     length audio = 44100 \<and>
     (\<forall>i<44100. audio ! i = 0.5 * msin (sine_phase 440 (fl64 (real i / 44100))) \<and>
        \<bar>sine_phase 440 (fl64 (real i / 44100)) - 2 * PI64 * 440 * (real i / 44100)\<bar>
          \<le> 1 / 10 ^ 11) \<and>
     (msin 0 = 0 \<longrightarrow> audio ! 0 = 0) \<and>
     ((\<forall>x. sin x < 0 \<longrightarrow> msin x < 0) \<longrightarrow> audio ! 100 < 0)"
proof -
  let ?audio = "map (\<lambda>i. msin (sine_phase 440 (fl64 (real i / 44100))) * 0.5) [0..<44100]"
  have nth: "?audio ! i = 0.5 * msin (sine_phase 440 (fl64 (real i / 44100)))"
    if "i < 44100" for i
    using that by (subst nth_map) simp_all
  have zero: "?audio ! 0 = 0" if "msin 0 = 0"
    using nth [of 0] that unfolding sine_phase_0 by simp
  have neg: "?audio ! 100 < 0" if "\<forall>x. sin x < 0 \<longrightarrow> msin x < 0"
  proof -
    from that sin_phase_100_negative have "msin (220568637393177 / 35184372088832) < 0"
      by blast
    moreover have "?audio ! 100 = 0.5 * msin (sine_phase 440 (fl64 (real 100 / 44100)))"
      by (rule nth) simp
    ultimately show ?thesis
      unfolding sine_phase_100 by simp
  qed
  have len: "length ?audio = 44100" by simp
  from len nth zero neg sine_phase_440_close show ?thesis
    unfolding generate_tone_sine_440_samples
    by (intro exI [of _ ?audio] conjI allI impI) blast+
qed

theorem generate_tone_sine_440_witness:
  "\<exists>audio. generate_tone sin 440 1 0.5 ''sine'' SAMPLE_RATE None (\<lambda>_. 0) = Inr audio \<and>
     length audio = 44100 \<and> audio ! 0 = 0 \<and> audio ! 100 < 0"
proof -
  from generate_tone_sine_440 [of sin "\<lambda>_. 0"] obtain audio where
    a: "generate_tone sin 440 1 0.5 ''sine'' SAMPLE_RATE None (\<lambda>_. 0) = Inr audio"
      "length audio = 44100" "sin 0 = (0 :: real) \<longrightarrow> audio ! 0 = 0"
      "(\<forall>x :: real. sin x < 0 \<longrightarrow> sin x < 0) \<longrightarrow> audio ! 100 < 0"
    by (elim exE conjE)
  from a(3) have "audio ! 0 = 0" by simp
  moreover from a(4) have "audio ! 100 < 0" by simp
  ultimately show ?thesis using a(1,2) by blast
qed

subsection \<open>Instrument envelopes\<close>

lemma abs_sin_times_exp:
  fixes x k :: real
  shows "\<bar>sin x * exp k\<bar> \<le> exp k"
proof -
  have "\<bar>sin x * exp k\<bar> = \<bar>sin x\<bar> * exp k"
    by (simp add: abs_mult)
  also have "\<dots> \<le> 1 * exp k"
    by (rule mult_right_mono) simp_all
  finally show ?thesis by simp
qed

lemma harmonic_stack_bound:
  fixes a b c :: real
  assumes "\<bar>a\<bar> \<le> 1" and "\<bar>b\<bar> \<le> 1" and "\<bar>c\<bar> \<le> 1"
  shows "\<bar>1.0 * a + 0.5 * b + 0.25 * c\<bar> \<le> 1.75"
  using assms unfolding abs_le_iff by simp

lemma piano_wave_bound: "\<bar>piano_wave freq t\<bar> \<le> 1.75 * exp (- 3 * t)"
proof -
  let ?a = "sin (2 * pi * freq * t)"
  let ?b = "sin (2 * pi * freq * 2 * t)"
  let ?c = "sin (2 * pi * freq * 3 * t)"
  have a: "\<bar>?a\<bar> \<le> 1" and b: "\<bar>?b\<bar> \<le> 1" and c: "\<bar>?c\<bar> \<le> 1"
    by (rule abs_sin_le_one)+
  have "\<bar>1.0 * ?a + 0.5 * ?b + 0.25 * ?c\<bar> \<le> 1.75"
    using a b c by (rule harmonic_stack_bound)
  then have "\<bar>1.0 * ?a + 0.5 * ?b + 0.25 * ?c\<bar> * exp (- 3 * t) \<le> 1.75 * exp (- 3 * t)"
    by (rule mult_right_mono) simp
  then show ?thesis
    by (simp add: piano_wave_def abs_mult)
qed

lemma flute_wave_bound: "\<bar>flute_wave freq t\<bar> \<le> exp (- 0.8 * t)"
  unfolding flute_wave_def by (rule abs_sin_times_exp)

lemma bass_wave_bound: "\<bar>bass_wave freq t\<bar> \<le> exp (- 1.5 * t)"
  unfolding bass_wave_def by (rule abs_sin_times_exp)

text \<open>
  C6 (as stated): for piano, flute and bass the sample magnitude at \<open>t = 0\<close> exceeds
  the magnitude at twice the decay time constant (\<open>2/3\<close>, \<open>2/0.8\<close> and \<open>2/1.5\<close>
  seconds). Each instrument is a sum of sines of phase zero, so its sample at
  \<open>t = 0\<close> is \<open>0\<close> and exceeds no magnitude.
\<close>

theorem instrument_decay_counterexample:
  "\<not> (\<bar>piano_wave 440 0\<bar> > \<bar>piano_wave 440 (2 * (1 / 3))\<bar>) \<and>
   \<not> (\<bar>flute_wave 440 0\<bar> > \<bar>flute_wave 440 (2 * (1 / 0.8))\<bar>) \<and>
   \<not> (\<bar>bass_wave 440 0\<bar> > \<bar>bass_wave 440 (2 * (1 / 1.5))\<bar>)"
  by (simp add: piano_wave_def flute_wave_def bass_wave_def)

text \<open>
  C6 (amended): for piano, flute and bass and every frequency, the sample at \<open>t = 0\<close>
  is exactly \<open>0\<close>; what decays is the envelope bound. The magnitude at time \<open>t\<close> is at
  most \<open>A * exp(-k * t)\<close> with \<open>(A, k)\<close> equal to \<open>(1.75, 3)\<close> for piano, \<open>(1, 0.8)\<close>
  for flute and \<open>(1, 1.5)\<close> for bass, so at twice the time constant, \<open>t = 2 / k\<close>, it
  is at most \<open>A * exp(-2)\<close>, strictly below the bound \<open>A\<close> at \<open>t = 0\<close>.
\<close>

theorem instrument_envelope_decay:
  "piano_wave freq 0 = 0 \<and> flute_wave freq 0 = 0 \<and> bass_wave freq 0 = 0 \<and>
   \<bar>piano_wave freq t\<bar> \<le> 1.75 * exp (- 3 * t) \<and>
   \<bar>flute_wave freq t\<bar> \<le> exp (- 0.8 * t) \<and>
   \<bar>bass_wave freq t\<bar> \<le> exp (- 1.5 * t) \<and>
   \<bar>piano_wave freq (2 * (1 / 3))\<bar> \<le> 1.75 * exp (- 2) \<and>
   \<bar>flute_wave freq (2 * (1 / 0.8))\<bar> \<le> exp (- 2) \<and>
   \<bar>bass_wave freq (2 * (1 / 1.5))\<bar> \<le> exp (- 2) \<and>
   exp (- 2) < (1 :: real)"
proof -
  have zero: "piano_wave freq 0 = 0" "flute_wave freq 0 = 0" "bass_wave freq 0 = 0"
    by (simp_all add: piano_wave_def flute_wave_def bass_wave_def)
  have p: "\<bar>piano_wave freq (2 * (1 / 3))\<bar> \<le> 1.75 * exp (- 2)"
    using piano_wave_bound [of freq "2 * (1 / 3)"] by simp
  have f: "\<bar>flute_wave freq (2 * (1 / 0.8))\<bar> \<le> exp (- 2)"
    using flute_wave_bound [of freq "2 * (1 / 0.8)"] by simp
  have b: "\<bar>bass_wave freq (2 * (1 / 1.5))\<bar> \<le> exp (- 2)"
    using bass_wave_bound [of freq "2 * (1 / 1.5)"] by simp
  have e: "exp (- 2) < (1 :: real)"
    by simp
  from zero p f b e piano_wave_bound [of freq t] flute_wave_bound [of freq t]
    bass_wave_bound [of freq t]
  show ?thesis by blast
qed

subsection \<open>Volume scaling and the clamp at serialization\<close>








subsection \<open>Unknown waveform names\<close>

lemma waveform_value_unknown:
  "waveform \<notin> {''sine'', ''square'', ''saw'', ''triangle'', ''noise''} \<Longrightarrow>
     waveform_value msin waveform frequency t u = 0"
  by (simp add: waveform_value_def)

text \<open>
  C9 (as stated): with no instrument and an unknown waveform name \<open>generate_tone\<close>
  does not raise. At the duration \<open>-1\<close> the sample count is \<open>-44100\<close> and
  \<open>np.zeros\<close> raises \<open>ValueError\<close>.
\<close>

theorem generate_tone_unknown_waveform_counterexample:
  "generate_tone sin 440 (- 1) 0.5 ''organ'' 44100 None (\<lambda>_. 0) = Inl ValueError"
  unfolding generate_tone_samples fl64_minus_44100 by (simp add: py_int_def)

text \<open>
  C9 (amended): when no instrument is given (\<open>None\<close> or the empty string) and the
  waveform is none of sine, square, saw, triangle and noise, the unknown name itself
  raises nothing: when the double product \<open>sample_rate * duration\<close> is above \<open>-1\<close>,
  \<open>generate_tone\<close> returns a buffer of the usual length
  \<open>int(sample_rate * duration)\<close> whose samples are all \<open>0.0\<close>; when the product is
  \<open>-1\<close> or less the count is negative and \<open>np.zeros\<close> raises \<open>ValueError\<close>, as for
  every waveform.
\<close>

theorem generate_tone_unknown_waveform:
  assumes "\<not> truthy instrument"
    and "waveform \<notin> {''sine'', ''square'', ''saw'', ''triangle'', ''noise''}"
  shows "(fl64 (sample_rate * duration) \<le> - 1 \<longrightarrow>
            generate_tone msin frequency duration volume waveform sample_rate instrument rnd
              = Inl ValueError) \<and>
         (- 1 < fl64 (sample_rate * duration) \<longrightarrow>
            (\<exists>audio. generate_tone msin frequency duration volume waveform sample_rate
                 instrument rnd = Inr audio \<and>
               int (length audio) = py_int (fl64 (sample_rate * duration)) \<and>
               (\<forall>i<length audio. audio ! i = 0)))"
  using assms py_int_neg_iff [of "fl64 (sample_rate * duration)"]
  by (auto simp: generate_tone_samples tone_value_def waveform_value_unknown)

lemma fl64_5_samples: "fl64 (44100 * (1 / 8192)) = 11025 / 2048"
  using fl64_exact [of 11025 "- 11"] by (simp add: power_int_minus)

theorem generate_tone_unknown_waveform_witness:
  "generate_tone sin 440 (1 / 8192) 0.5 ''organ'' 44100 None (\<lambda>_. 0) = Inr [0, 0, 0, 0, 0] \<and>
   generate_tone sin 440 (- 1) 0.5 ''organ'' 44100 None (\<lambda>_. 0) = Inl ValueError"
proof -
  have t: "\<not> truthy None" by (simp add: truthy_def)
  have w: "''organ'' \<notin> {''sine'', ''square'', ''saw'', ''triangle'', ''noise''}" by simp
  note pos = generate_tone_unknown_waveform
    [OF t w, of 44100 "1 / 8192" sin 440 "0.5" "\<lambda>_. 0", unfolded fl64_5_samples]
  note neg = generate_tone_unknown_waveform
    [OF t w, of 44100 "- 1" sin 440 "0.5" "\<lambda>_. 0", unfolded fl64_minus_44100]
  from pos obtain audio where
    a: "generate_tone sin 440 (1 / 8192) 0.5 ''organ'' 44100 None (\<lambda>_. 0) = Inr audio"
      "int (length audio) = py_int (11025 / 2048)" "\<forall>i<length audio. audio ! i = 0"
    by auto
  from a(2) have len: "length audio = 5"
    by (simp add: py_int_def)
  with a(3) have "audio = [0, 0, 0, 0, 0]"
    by (intro nth_equalityI) (simp_all add: nth_Cons')
  moreover from neg have
    "generate_tone sin 440 (- 1) 0.5 ''organ'' 44100 None (\<lambda>_. 0) = Inl ValueError"
    by simp
  ultimately show ?thesis using a(1) by simp
qed

section \<open>Properties of the melody generators\<close>

subsection \<open>Keys and transitions of the Markov model\<close>

lemma markov_loop_dom: "dom (markov_loop melody markov) = dom markov \<union> set (butlast melody)"
proof (induction melody markov rule: markov_loop.induct)
  case (1 cur nxt rest markov)
  let ?nexts = "(case markov cur of None \<Rightarrow> [] | Some l \<Rightarrow> l) @ [nxt]"
  have "dom (markov_loop (cur # nxt # rest) markov)
      = dom (markov(cur \<mapsto> ?nexts)) \<union> set (butlast (nxt # rest))"
    using "1.IH" by (simp only: markov_loop.simps)
  also have "dom (markov(cur \<mapsto> ?nexts)) = insert cur (dom markov)"
    by simp
  finally show ?case by auto
next
  case "2_1"
  show ?case by simp
next
  case "2_2"
  show ?case by simp
qed

lemma markov_loop_values:
  assumes "set melody \<subseteq> S"
    and "\<And>key nexts. markov key = Some nexts \<Longrightarrow> nexts \<noteq> [] \<and> set nexts \<subseteq> S"
    and "markov_loop melody markov key = Some nexts"
  shows "nexts \<noteq> [] \<and> set nexts \<subseteq> S"
  using assms
proof (induction melody markov arbitrary: key nexts rule: markov_loop.induct)
  case (1 cur nxt rest markov)
  let ?markov = "markov(cur \<mapsto> (case markov cur of None \<Rightarrow> [] | Some l \<Rightarrow> l) @ [nxt])"
  have step: "nexts' \<noteq> [] \<and> set nexts' \<subseteq> S" if "?markov key' = Some nexts'" for key' nexts'
  proof (cases "key' = cur")
    case True
    with that have "nexts' = (case markov cur of None \<Rightarrow> [] | Some l \<Rightarrow> l) @ [nxt]"
      by simp
    moreover have "nxt \<in> S" using "1.prems"(1) by simp
    moreover have "set (case markov cur of None \<Rightarrow> [] | Some l \<Rightarrow> l) \<subseteq> S"
      using "1.prems"(2) [of cur] by (cases "markov cur") simp_all
    ultimately show ?thesis by simp
  next
    case False
    with that have "markov key' = Some nexts'" by simp
    then show ?thesis by (rule "1.prems"(2))
  qed
  have sub: "set (nxt # rest) \<subseteq> S"
    using "1.prems"(1) by simp
  have loop: "markov_loop (nxt # rest) ?markov key = Some nexts"
    using "1.prems"(3) by simp
  from sub step loop show ?case
    by (rule "1.IH")
next
  case "2_1"
  then show ?case by simp
next
  case "2_2"
  then show ?case by simp
qed

lemma MARKOV_values:
  assumes "MARKOV key = Some nexts"
  shows "nexts \<noteq> [] \<and> set nexts \<subseteq> set training_melody"
proof (rule markov_loop_values [of training_melody _ Map.empty key])
  show "set training_melody \<subseteq> set training_melody" by simp
  show "Map.empty key' = Some nexts' \<Longrightarrow> nexts' \<noteq> [] \<and> set nexts' \<subseteq> set training_melody"
    for key' :: string and nexts' by simp
  from assms show "markov_loop training_melody Map.empty key = Some nexts"
    by (simp add: MARKOV_def build_markov_chain_def)
qed

lemma dom_MARKOV: "dom MARKOV = set training_melody"
  unfolding MARKOV_def build_markov_chain_def markov_loop_dom
  by (auto simp: training_melody_def)

lemma MARKOV_C4: "MARKOV ''C4'' = Some [''D4'', ''C4'', ''E4'']"
  by (simp add: MARKOV_def build_markov_chain_def training_melody_def)

text \<open>
  C2 (as stated): some note of the training sequence, in particular its final note,
  is not a key of the Markov model. The final note \<open>C4\<close> also stands at positions
  0, 9 and 10, each followed by a note, so it is a key, and so is every other note
  of the sequence.
\<close>

theorem MARKOV_final_note_counterexample:
  "MARKOV (last training_melody) \<noteq> None \<and>
   \<not> (\<exists>note \<in> set training_melody. MARKOV note = None)"
proof -
  have "last training_melody \<in> set training_melody"
    by (simp add: training_melody_def)
  then show ?thesis
    using dom_MARKOV by (auto simp: dom_def)
qed

text \<open>
  C2 (amended): every note of the 18-note training sequence is a key of the Markov
  model built from it, including the final note \<open>C4\<close>, whose recorded transitions are
  \<open>D4\<close>, \<open>C4\<close>, \<open>E4\<close>; in general the keys of the model of a melody are the notes of
  the melody without its last position.
\<close>

theorem MARKOV_keys:
  "dom MARKOV = set training_melody \<and>
   last training_melody = ''C4'' \<and>
   MARKOV (last training_melody) = Some [''D4'', ''C4'', ''E4''] \<and>
   dom (build_markov_chain melody) = set (butlast melody)"
proof -
  have "last training_melody = ''C4''"
    by (simp add: training_melody_def)
  then show ?thesis
    by (simp add: dom_MARKOV MARKOV_C4 build_markov_chain_def markov_loop_dom)
qed

subsection \<open>The Markov melody generator\<close>

lemma choice_nonempty: "seq \<noteq> [] \<Longrightarrow> choice seq r = Inr (seq ! (r mod length seq))"
  by (simp add: choice_def)

lemma choice_in_set: "choice seq r = Inr x \<Longrightarrow> x \<in> set seq"
  by (auto simp: choice_def split: if_splits)

text \<open>The note that one pass of the loop draws, when no draw can fail.\<close>

lemma next_note_total:
  assumes "training \<noteq> []"
    and "\<And>key nexts. markov key = Some nexts \<Longrightarrow> nexts \<noteq> []"
  shows "next_note markov training current r =
     Inr (case markov current of
            Some nexts \<Rightarrow> nexts ! (r mod length nexts)
          | None \<Rightarrow> training ! (r mod length training))"
  using assms by (auto simp: next_note_def choice_nonempty split: option.splits)

lemma ai_melody_loop_total:
  assumes "training \<noteq> []"
    and "\<And>key nexts. markov key = Some nexts \<Longrightarrow> nexts \<noteq> []"
  shows "\<exists>out. ai_melody_loop markov training rnd k n current melody = Inr (melody @ out) \<and>
           length out = n \<and>
           (0 < n \<longrightarrow> out ! 0 = current) \<and>
           (\<forall>i. Suc i < n \<longrightarrow>
              next_note markov training (out ! i) (rnd (k + i)) = Inr (out ! Suc i))"
proof (induction n arbitrary: k current melody)
  case 0
  show ?case by simp
next
  case (Suc n)
  have "\<exists>nxt. next_note markov training current (rnd k) = Inr nxt"
    by (rule exI, rule next_note_total) (use assms in blast)+
  then obtain nxt where nxt: "next_note markov training current (rnd k) = Inr nxt" ..
  from Suc.IH [of "Suc k" nxt "melody @ [current]"] obtain out where
    out: "ai_melody_loop markov training rnd (Suc k) n nxt (melody @ [current])
            = Inr ((melody @ [current]) @ out)"
      "length out = n" "0 < n \<longrightarrow> out ! 0 = nxt"
      "\<forall>i. Suc i < n \<longrightarrow>
         next_note markov training (out ! i) (rnd (Suc k + i)) = Inr (out ! Suc i)"
    by blast
  have chain: "next_note markov training ((current # out) ! i) (rnd (k + i))
      = Inr ((current # out) ! Suc i)" if "Suc i < Suc n" for i
  proof (cases i)
    case 0
    with that out(3) nxt show ?thesis by simp
  next
    case (Suc j)
    with that out(4) show ?thesis by simp
  qed
  have "ai_melody_loop markov training rnd k (Suc n) current melody
      = Inr (melody @ current # out)"
    using nxt out(1) by simp
  with out(2) chain show ?case
    by (intro exI [of _ "current # out"]) simp
qed

lemma ai_melody_loop_notes:
  assumes "ai_melody_loop markov training rnd k n current melody = Inr out"
    and "current \<in> S" and "set melody \<subseteq> S" and "set training \<subseteq> S"
    and "\<And>key nexts. markov key = Some nexts \<Longrightarrow> set nexts \<subseteq> S"
  shows "set out \<subseteq> S"
  using assms(1,2,3)
proof (induction n arbitrary: k current melody)
  case 0
  then show ?case by simp
next
  case (Suc n)
  from Suc.prems(1) obtain nxt where
    nxt: "next_note markov training current (rnd k) = Inr nxt"
    and loop: "ai_melody_loop markov training rnd (Suc k) n nxt (melody @ [current]) = Inr out"
    by (auto split: sum.splits)
  have "nxt \<in> S"
  proof (cases "markov current")
    case None
    with nxt have "nxt \<in> set training"
      by (simp add: next_note_def choice_in_set)
    with assms(4) show ?thesis by blast
  next
    case (Some nexts)
    with nxt have "nxt \<in> set nexts"
      by (simp add: next_note_def choice_in_set)
    with assms(5) [OF Some] show ?thesis by blast
  qed
  moreover have "set (melody @ [current]) \<subseteq> S"
    using Suc.prems(2,3) by simp
  ultimately show ?case
    using loop by (intro Suc.IH [of "Suc k" nxt "melody @ [current]"])
qed


lemma training_melody_nonempty: "training_melody \<noteq> []"
  by (simp add: training_melody_def)

text \<open>
  C3: for every length \<open>L \<ge> 1\<close> and every sequence of random draws,
  \<open>generate_ai_melody\<close> raises nothing and returns exactly \<open>L\<close> notes. The start note
  is the element of the full training sequence at the position of the first draw.
  Each later note is drawn from the transition list of the note before it when that
  note is a key of the model, and otherwise from the full training sequence, at the
  position of the next draw: for any note without recorded transitions the step
  of the loop returns an element of the full training sequence.
\<close>

theorem generate_ai_melody_total:
  assumes "1 \<le> len"
  shows "(\<exists>melody. generate_ai_melody len rnd = Inr melody \<and>
     int (length melody) = len \<and>
     melody ! 0 = training_melody ! (rnd 0 mod length training_melody) \<and>
     (\<forall>i. Suc i < length melody \<longrightarrow> melody ! Suc i =
        (case MARKOV (melody ! i) of
           Some nexts \<Rightarrow> nexts ! (rnd (Suc i) mod length nexts)
         | None \<Rightarrow> training_melody ! (rnd (Suc i) mod length training_melody)))) \<and>
   (MARKOV current = None \<longrightarrow>
      next_note MARKOV training_melody current r
        = Inr (training_melody ! (r mod length training_melody)))"
proof -
  let ?start = "training_melody ! (rnd 0 mod length training_melody)"
  have nonempty: "nexts \<noteq> []" if "MARKOV key = Some nexts" for key nexts
    using MARKOV_values [OF that] by simp
  have start: "choice training_melody (rnd 0) = Inr ?start"
    using training_melody_nonempty by (rule choice_nonempty)
  have "\<exists>out. ai_melody_loop MARKOV training_melody rnd 1 (nat len) ?start [] = Inr ([] @ out) \<and>
      length out = nat len \<and>
      (0 < nat len \<longrightarrow> out ! 0 = ?start) \<and>
      (\<forall>i. Suc i < nat len \<longrightarrow>
         next_note MARKOV training_melody (out ! i) (rnd (1 + i)) = Inr (out ! Suc i))"
    by (rule ai_melody_loop_total) (use training_melody_nonempty nonempty in blast)+
  then obtain out where
    out: "ai_melody_loop MARKOV training_melody rnd 1 (nat len) ?start [] = Inr ([] @ out)"
      "length out = nat len" "0 < nat len \<longrightarrow> out ! 0 = ?start"
      "\<forall>i. Suc i < nat len \<longrightarrow>
         next_note MARKOV training_melody (out ! i) (rnd (1 + i)) = Inr (out ! Suc i)"
    by (elim exE conjE)
  have gen: "generate_ai_melody len rnd = Inr out"
    using start out(1) by (simp add: generate_ai_melody_def)
  have len: "int (length out) = len"
    using assms out(2) by simp
  have first: "out ! 0 = ?start"
    using assms out(3) by simp
  have step: "out ! Suc i =
        (case MARKOV (out ! i) of
           Some nexts \<Rightarrow> nexts ! (rnd (Suc i) mod length nexts)
         | None \<Rightarrow> training_melody ! (rnd (Suc i) mod length training_melody))"
    if "Suc i < length out" for i
  proof -
    from that out(2,4) have
      "next_note MARKOV training_melody (out ! i) (rnd (Suc i)) = Inr (out ! Suc i)"
      by simp
    moreover have "next_note MARKOV training_melody (out ! i) (rnd (Suc i)) =
        Inr (case MARKOV (out ! i) of
               Some nexts \<Rightarrow> nexts ! (rnd (Suc i) mod length nexts)
             | None \<Rightarrow> training_melody ! (rnd (Suc i) mod length training_melody))"
      by (rule next_note_total) (use training_melody_nonempty nonempty in blast)+
    ultimately show ?thesis by simp
  qed
  have restart: "next_note MARKOV training_melody current r
      = Inr (training_melody ! (r mod length training_melody))" if "MARKOV current = None"
    using that training_melody_nonempty by (simp add: next_note_def choice_nonempty)
  from gen len first step have "\<exists>melody. generate_ai_melody len rnd = Inr melody \<and>
     int (length melody) = len \<and>
     melody ! 0 = training_melody ! (rnd 0 mod length training_melody) \<and>
     (\<forall>i. Suc i < length melody \<longrightarrow> melody ! Suc i =
        (case MARKOV (melody ! i) of
           Some nexts \<Rightarrow> nexts ! (rnd (Suc i) mod length nexts)
         | None \<Rightarrow> training_melody ! (rnd (Suc i) mod length training_melody)))"
    by blast
  with restart show ?thesis by blast
qed

theorem generate_ai_melody_total_witness:
  "(\<exists>melody. generate_ai_melody 5 (\<lambda>k. k * 7) = Inr melody \<and>
     int (length melody) = 5 \<and> melody ! 0 = ''C4'') \<and>
   next_note MARKOV training_melody ''F4'' 20 = Inr ''E4''"
proof -
  have one: "(1 :: int) \<le> 5" by simp
  note inst = generate_ai_melody_total
    [where len = 5 and rnd = "\<lambda>k. k * 7" and current = "''F4''" and r = 20, OF one]
  from inst obtain melody where
    m: "generate_ai_melody 5 (\<lambda>k. k * 7) = Inr melody" "int (length melody) = 5"
      "melody ! 0 = training_melody ! ((\<lambda>k. k * 7) 0 mod length training_melody)"
    by (elim conjE exE)
  from m(3) have "melody ! 0 = ''C4''"
    by (simp add: training_melody_def)
  with m(1,2) have a: "\<exists>melody. generate_ai_melody 5 (\<lambda>k. k * 7) = Inr melody \<and>
     int (length melody) = 5 \<and> melody ! 0 = ''C4''"
    by blast
  have "''F4'' \<notin> set training_melody"
    by (simp add: training_melody_def)
  then have "''F4'' \<notin> dom MARKOV"
    unfolding dom_MARKOV .
  then have none: "MARKOV ''F4'' = None"
    by (simp add: domIff)
  have "next_note MARKOV training_melody ''F4'' 20
      = Inr (training_melody ! (20 mod length training_melody))"
    by (rule inst [THEN conjunct2, THEN mp, OF none])
  then have "next_note MARKOV training_melody ''F4'' 20 = Inr ''E4''"
    by (simp add: training_melody_def)
  with a show ?thesis by (rule conjI)
qed

subsection \<open>The emotion melody generator\<close>

lemma draw_notes_total:
  "base \<noteq> [] \<Longrightarrow>
     draw_notes base rnd k n = Inr (map (\<lambda>i. base ! (rnd (k + i) mod length base)) [0..<n])"
proof (induction n arbitrary: k)
  case 0
  show ?case by simp
next
  case (Suc n)
  from Suc.prems have "choice base (rnd k) = Inr (base ! (rnd k mod length base))"
    by (rule choice_nonempty)
  moreover note Suc.IH [OF Suc.prems, of "Suc k"]
  ultimately show ?case
    by (simp add: map_upt_Suc del: upt_Suc)
qed

lemma emotion_patterns_happy:
  "emotion_patterns ''happy'' = Some [''C4'', ''E4'', ''G4'', ''C5'', ''A4'', ''G4'', ''E4'']"
  by (simp add: emotion_patterns_def)

lemma emotion_patterns_nonempty: "emotion_patterns emotion = Some pool \<Longrightarrow> pool \<noteq> []"
  by (auto simp: emotion_patterns_def split: if_splits)

lemma dom_emotion_patterns:
  "dom emotion_patterns = {''happy'', ''sad'', ''romantic'', ''suspense''}"
  by (auto simp: emotion_patterns_def split: if_splits)

text \<open>
  C8: the supported labels are happy, sad, romantic and suspense. For a supported
  label and every length, \<open>generate_emotional_melody\<close> returns that many notes, each
  the element of the label's pool at the position of its own draw, so each note
  belongs to the pool; for every other label the result is the result for
  \<open>"happy"\<close> with the same draws.
\<close>

theorem generate_emotional_melody_pool:
  "dom emotion_patterns = {''happy'', ''sad'', ''romantic'', ''suspense''} \<and>
   (emotion_patterns emotion = Some pool \<longrightarrow>
      (\<exists>melody. generate_emotional_melody emotion len rnd = Inr melody \<and>
         length melody = nat len \<and> set melody \<subseteq> set pool \<and>
         (\<forall>i<length melody. melody ! i = pool ! (rnd i mod length pool)))) \<and>
   (emotion_patterns emotion = None \<longrightarrow>
      generate_emotional_melody emotion len rnd
        = generate_emotional_melody ''happy'' len rnd)"
proof -
  have known: "\<exists>melody. generate_emotional_melody emotion len rnd = Inr melody \<and>
         length melody = nat len \<and> set melody \<subseteq> set pool \<and>
         (\<forall>i<length melody. melody ! i = pool ! (rnd i mod length pool))"
    if pool: "emotion_patterns emotion = Some pool"
  proof -
    from pool have ne: "pool \<noteq> []" by (rule emotion_patterns_nonempty)
    let ?melody = "map (\<lambda>i. pool ! (rnd (0 + i) mod length pool)) [0..<nat len]"
    have "generate_emotional_melody emotion len rnd = Inr ?melody"
      using pool draw_notes_total [OF ne, of rnd 0 "nat len"]
      by (simp add: generate_emotional_melody_def emotion_patterns_happy)
    moreover have "set ?melody \<subseteq> set pool"
      using ne by auto
    ultimately show ?thesis by simp
  qed
  have unknown: "generate_emotional_melody emotion len rnd
        = generate_emotional_melody ''happy'' len rnd"
    if "emotion_patterns emotion = None"
    using that by (simp add: generate_emotional_melody_def emotion_patterns_happy)
  from known unknown dom_emotion_patterns show ?thesis by blast
qed

theorem generate_emotional_melody_pool_witness:
  "(\<exists>melody. generate_emotional_melody ''sad'' 3 (\<lambda>k. k + 1) = Inr melody \<and>
      length melody = 3 \<and>
      set melody \<subseteq> set [''A3'', ''C4'', ''D4'', ''F4'', ''E4'', ''D4'', ''C4'']) \<and>
   generate_emotional_melody ''angry'' 3 (\<lambda>k. k + 1)
     = generate_emotional_melody ''happy'' 3 (\<lambda>k. k + 1)"
proof -
  have sad: "emotion_patterns ''sad'' = Some [''A3'', ''C4'', ''D4'', ''F4'', ''E4'', ''D4'', ''C4'']"
    by (simp add: emotion_patterns_def)
  have angry: "emotion_patterns ''angry'' = None"
    by (simp add: emotion_patterns_def)
  from generate_emotional_melody_pool
    [of "''sad''" "[''A3'', ''C4'', ''D4'', ''F4'', ''E4'', ''D4'', ''C4'']" 3 "\<lambda>k. k + 1"] sad
  have "\<exists>melody. generate_emotional_melody ''sad'' 3 (\<lambda>k. k + 1) = Inr melody \<and>
      length melody = 3 \<and>
      set melody \<subseteq> set [''A3'', ''C4'', ''D4'', ''F4'', ''E4'', ''D4'', ''C4'']"
    by auto
  moreover from generate_emotional_melody_pool [of "''angry''" "[]" 3 "\<lambda>k. k + 1"] angry
  have "generate_emotional_melody ''angry'' 3 (\<lambda>k. k + 1)
     = generate_emotional_melody ''happy'' 3 (\<lambda>k. k + 1)"
    by blast
  ultimately show ?thesis by blast
qed

subsection \<open>Generated notes and the frequency table\<close>

lemma training_melody_known: "set training_melody \<subseteq> dom NOTE_FREQ"
  by (simp add: training_melody_def NOTE_FREQ_def)

lemma emotion_patterns_known:
  "emotion_patterns emotion = Some pool \<Longrightarrow> set pool \<subseteq> dom NOTE_FREQ"
  by (auto simp: emotion_patterns_def NOTE_FREQ_def split: if_splits)

lemma generate_ai_melody_notes:
  assumes "generate_ai_melody len rnd = Inr melody"
  shows "set melody \<subseteq> set training_melody"
proof -
  from assms obtain start where
    start: "choice training_melody (rnd 0) = Inr start"
    and loop: "ai_melody_loop MARKOV training_melody rnd 1 (nat len) start [] = Inr melody"
    by (auto simp: generate_ai_melody_def split: sum.splits)
  from start have "start \<in> set training_melody"
    by (rule choice_in_set)
  moreover have "set nexts \<subseteq> set training_melody" if "MARKOV key = Some nexts" for key nexts
    using MARKOV_values [OF that] by simp
  ultimately show ?thesis
    by (intro ai_melody_loop_notes [OF loop]) simp_all
qed

lemma draw_notes_in_base:
  assumes "draw_notes base rnd k n = Inr melody"
  shows "set melody \<subseteq> set base"
  using assms
proof (induction n arbitrary: k melody)
  case 0
  then show ?case by simp
next
  case (Suc n)
  from Suc.prems obtain x rest where
    x: "choice base (rnd k) = Inr x"
    and rest: "draw_notes base rnd (Suc k) n = Inr rest"
    and melody: "melody = x # rest"
    by (auto split: sum.splits)
  from x have "x \<in> set base" by (rule choice_in_set)
  moreover from rest have "set rest \<subseteq> set base" by (rule Suc.IH)
  ultimately show ?case using melody by simp
qed

lemma generate_emotional_melody_notes:
  assumes "generate_emotional_melody emotion len rnd = Inr melody"
  shows "set melody \<subseteq> dom NOTE_FREQ"
proof -
  let ?happy = "[''C4'', ''E4'', ''G4'', ''C5'', ''A4'', ''G4'', ''E4'']"
  let ?base = "case emotion_patterns emotion of Some pool \<Rightarrow> pool | None \<Rightarrow> ?happy"
  from assms have "draw_notes ?base rnd 0 (nat len) = Inr melody"
    by (simp add: generate_emotional_melody_def emotion_patterns_happy)
  then have "set melody \<subseteq> set ?base"
    by (rule draw_notes_in_base)
  moreover have "set ?base \<subseteq> dom NOTE_FREQ"
  proof (cases "emotion_patterns emotion")
    case None
    with emotion_patterns_known [OF emotion_patterns_happy] show ?thesis by simp
  next
    case (Some pool)
    with emotion_patterns_known [OF Some] show ?thesis by simp
  qed
  ultimately show ?thesis by (rule subset_trans)
qed

lemma melody_to_frequencies_known:
  "set melody \<subseteq> dom NOTE_FREQ \<Longrightarrow>
     melody_to_frequencies melody = map (\<lambda>n. the (NOTE_FREQ n)) melody"
  by (auto simp: melody_to_frequencies_def)

text \<open>
  C10: every note of the training sequence and of every emotion pool is a key of
  \<open>NOTE_FREQ\<close>, so is every note that \<open>generate_ai_melody\<close> or
  \<open>generate_emotional_melody\<close> returns, and on such a melody
  \<open>melody_to_frequencies\<close> is the plain table lookup: the 440.0 default is not used.
\<close>

theorem generated_notes_have_frequencies:
  "set training_melody \<subseteq> dom NOTE_FREQ \<and>
   (\<forall>pool \<in> ran emotion_patterns. set pool \<subseteq> dom NOTE_FREQ) \<and>
   (generate_ai_melody len rnd = Inr melody \<longrightarrow>
      set melody \<subseteq> dom NOTE_FREQ \<and>
      melody_to_frequencies melody = map (\<lambda>n. the (NOTE_FREQ n)) melody) \<and>
   (generate_emotional_melody emotion len' rnd' = Inr melody' \<longrightarrow>
      set melody' \<subseteq> dom NOTE_FREQ \<and>
      melody_to_frequencies melody' = map (\<lambda>n. the (NOTE_FREQ n)) melody')"
proof (intro conjI impI ballI)
  show "set training_melody \<subseteq> dom NOTE_FREQ"
    by (rule training_melody_known)
  show "set pool \<subseteq> dom NOTE_FREQ" if "pool \<in> ran emotion_patterns" for pool
    using that emotion_patterns_known by (auto simp: ran_def)
  show ai: "set melody \<subseteq> dom NOTE_FREQ" if "generate_ai_melody len rnd = Inr melody"
    using generate_ai_melody_notes [OF that] training_melody_known by (rule subset_trans)
  show "melody_to_frequencies melody = map (\<lambda>n. the (NOTE_FREQ n)) melody"
    if "generate_ai_melody len rnd = Inr melody"
    using ai [OF that] by (rule melody_to_frequencies_known)
  show emo: "set melody' \<subseteq> dom NOTE_FREQ"
    if "generate_emotional_melody emotion len' rnd' = Inr melody'"
    using that by (rule generate_emotional_melody_notes)
  show "melody_to_frequencies melody' = map (\<lambda>n. the (NOTE_FREQ n)) melody'"
    if "generate_emotional_melody emotion len' rnd' = Inr melody'"
    using emo [OF that] by (rule melody_to_frequencies_known)
qed

theorem generated_notes_have_frequencies_witness:
  "generate_ai_melody 5 (\<lambda>k. k * 7) = Inr [''C4'', ''C4'', ''E4'', ''D4'', ''C4''] \<and>
   melody_to_frequencies [''C4'', ''C4'', ''E4'', ''D4'', ''C4'']
     = [261.63, 261.63, 329.63, 293.66, 261.63] \<and>
   generate_emotional_melody ''sad'' 3 (\<lambda>k. k + 1) = Inr [''C4'', ''D4'', ''F4''] \<and>
   melody_to_frequencies [''C4'', ''D4'', ''F4''] = [261.63, 293.66, 349.23]"
proof -
  have ai: "generate_ai_melody 5 (\<lambda>k. k * 7) = Inr [''C4'', ''C4'', ''E4'', ''D4'', ''C4'']"
    by code_simp
  have emo: "generate_emotional_melody ''sad'' 3 (\<lambda>k. k + 1) = Inr [''C4'', ''D4'', ''F4'']"
    by code_simp
  note inst = generated_notes_have_frequencies
    [of 5 "\<lambda>k. k * 7" "[''C4'', ''C4'', ''E4'', ''D4'', ''C4'']" "''sad''" 3 "\<lambda>k. k + 1"
      "[''C4'', ''D4'', ''F4'']"]
  have "melody_to_frequencies [''C4'', ''C4'', ''E4'', ''D4'', ''C4'']
      = map (\<lambda>n. the (NOTE_FREQ n)) [''C4'', ''C4'', ''E4'', ''D4'', ''C4'']"
    by (rule inst [THEN conjunct2, THEN conjunct2, THEN conjunct1, THEN mp, OF ai,
          THEN conjunct2])
  then have f1: "melody_to_frequencies [''C4'', ''C4'', ''E4'', ''D4'', ''C4'']
     = [261.63, 261.63, 329.63, 293.66, 261.63]"
    by (simp add: NOTE_FREQ_def)
  have "melody_to_frequencies [''C4'', ''D4'', ''F4'']
      = map (\<lambda>n. the (NOTE_FREQ n)) [''C4'', ''D4'', ''F4'']"
    by (rule inst [THEN conjunct2, THEN conjunct2, THEN conjunct2, THEN mp, OF emo,
          THEN conjunct2])
  then have f2: "melody_to_frequencies [''C4'', ''D4'', ''F4''] = [261.63, 293.66, 349.23]"
    by (simp add: NOTE_FREQ_def)
  from ai emo f1 f2 show ?thesis by (intro conjI)
qed

end
